theory Spec2Isabelle
  imports Main "HOL-Library.Char_ord" "HOL-Library.List_Lexorder" "HOL-Library.Sublist"
    "HOL-Library.Multiset"
begin

section \<open>Strings, file names and paths\<close>

text \<open>
  The program is \<^verbatim>\<open>smart_filing_system.py\<close>: a class \<^verbatim>\<open>SmartFilingSystem\<close> that groups
  the files of a source folder by extension and copies or moves them into a target
  folder under sequentially numbered names.

  Strings are \<^typ>\<open>string\<close>. \<^verbatim>\<open>str.lower\<close> is modelled on the ASCII letters; every other
  character is left as it is.
\<close>

definition lower_char :: "char \<Rightarrow> char" where
  "lower_char c =
     (case map_of (zip ''ABCDEFGHIJKLMNOPQRSTUVWXYZ'' ''abcdefghijklmnopqrstuvwxyz'') c of
        Some d \<Rightarrow> d
      | None \<Rightarrow> c)"

definition lower :: "string \<Rightarrow> string" where
  "lower s = map lower_char s"

text \<open>\<^verbatim>\<open>s.lstrip('.')\<close>: every leading dot is removed.\<close>

definition lstrip_dot :: "string \<Rightarrow> string" where
  "lstrip_dot s = dropWhile (\<lambda>c. c = CHR ''.'') s"

text \<open>
  A \<^verbatim>\<open>pathlib.Path\<close> is the list of its components (its \<^verbatim>\<open>parts\<close>), counted from the
  root of the modelled file tree, which is also the working directory. Components
  \<^verbatim>\<open>..\<close> are not resolved.
\<close>

type_synonym path = "string list"

text \<open>\<^verbatim>\<open>Path.name\<close>: the last component, the empty string for the empty path.\<close>

definition name_of :: "path \<Rightarrow> string" where
  "name_of p = (if p = [] then [] else last p)"

text \<open>\<^verbatim>\<open>str.rfind\<close>: the last index of a character, \<open>None\<close> for Python's \<open>-1\<close>.\<close>

fun rfind :: "char \<Rightarrow> string \<Rightarrow> nat option" where
  "rfind c [] = None"
| "rfind c (x # xs) =
     (case rfind c xs of
        Some i \<Rightarrow> Some (Suc i)
      | None \<Rightarrow> if x = c then Some 0 else None)"

text \<open>
  \<^verbatim>\<open>Path.suffix\<close> on a file name (Python up to 3.13):
  \<^verbatim>\<open>i = name.rfind('.'); return name[i:] if 0 < i < len(name) - 1 else ''\<close>.
\<close>

definition suffix_of :: "string \<Rightarrow> string" where
  "suffix_of name =
     (case rfind (CHR ''.'') name of
        None \<Rightarrow> []
      | Some i \<Rightarrow> if 0 < i \<and> Suc i < length name then drop i name else [])"

text \<open>The group key of a file: \<^verbatim>\<open>item.suffix.lstrip('.').lower()\<close>.\<close>

definition ext_of :: "string \<Rightarrow> string" where
  "ext_of name = lower (lstrip_dot (suffix_of name))"

text \<open>\<^verbatim>\<open>str(path)\<close>: the components joined by the separator.\<close>

fun path_str :: "path \<Rightarrow> string" where
  "path_str [] = ''.''"
| "path_str [c] = c"
| "path_str (c # d # ds) = c @ ''/'' @ path_str (d # ds)"

text \<open>
  \<^verbatim>\<open>folder / filename\<close>: the file name is split at the separator, empty and \<^verbatim>\<open>.\<close>
  components are dropped, and a file name that starts with the separator replaces the
  folder.
\<close>

fun split_sep :: "string \<Rightarrow> string list" where
  "split_sep [] = [[]]"
| "split_sep (c # cs) =
     (if c = CHR ''/'' then [] # split_sep cs
      else (case split_sep cs of
              [] \<Rightarrow> [[c]]
            | w # ws \<Rightarrow> (c # w) # ws))"

definition parse_parts :: "string \<Rightarrow> path" where
  "parse_parts s = filter (\<lambda>w. w \<noteq> [] \<and> w \<noteq> ''.'') (split_sep s)"

definition joinpath :: "path \<Rightarrow> string \<Rightarrow> path" where
  "joinpath folder filename =
     (if filename \<noteq> [] \<and> hd filename = CHR ''/'' then parse_parts filename
      else folder @ parse_parts filename)"

section \<open>Dictionaries\<close>

text \<open>
  A Python \<^verbatim>\<open>dict\<close> is an association list in insertion order: assigning to a key that
  is present replaces its value in place, assigning to a new key appends it.
\<close>

fun dict_set :: "'k \<Rightarrow> 'v \<Rightarrow> ('k \<times> 'v) list \<Rightarrow> ('k \<times> 'v) list" where
  "dict_set k v [] = [(k, v)]"
| "dict_set k v ((k', v') # d) =
     (if k' = k then (k, v) # d else (k', v') # dict_set k v d)"

text \<open>\<^verbatim>\<open>d.get(k, default)\<close>.\<close>

definition dict_get :: "('k \<times> 'v) list \<Rightarrow> 'k \<Rightarrow> 'v \<Rightarrow> 'v" where
  "dict_get d k dflt = (case map_of d k of Some v \<Rightarrow> v | None \<Rightarrow> dflt)"

section \<open>The file tree\<close>

text \<open>
  A node is a regular file with its content (\<^verbatim>\<open>is_file()\<close> holds), a directory with
  its entries in the order \<^verbatim>\<open>iterdir()\<close> yields them (\<^verbatim>\<open>is_dir()\<close> holds), or anything
  else (a broken link, a device). Links are followed by \<^verbatim>\<open>is_file\<close> and \<^verbatim>\<open>is_dir\<close>, so a
  link counts as what it points to; cyclic links are outside the model.
\<close>

datatype node = File string | Dir "(string \<times> node) list" | Special

fun fs_lookup :: "node \<Rightarrow> path \<Rightarrow> node option" where
  "fs_lookup nd [] = Some nd"
| "fs_lookup (Dir es) (x # xs) =
     (case map_of es x of None \<Rightarrow> None | Some c \<Rightarrow> fs_lookup c xs)"
| "fs_lookup (File c) (x # xs) = None"
| "fs_lookup Special (x # xs) = None"

definition exists :: "node \<Rightarrow> path \<Rightarrow> bool" where
  "exists fs p = (fs_lookup fs p \<noteq> None)"

definition is_dir :: "node \<Rightarrow> path \<Rightarrow> bool" where
  "is_dir fs p = (case fs_lookup fs p of Some (Dir es) \<Rightarrow> True | _ \<Rightarrow> False)"

text \<open>The content of the regular file at a path, if there is one.\<close>

definition file_at :: "node \<Rightarrow> path \<Rightarrow> string option" where
  "file_at fs p = (case fs_lookup fs p of Some (File c) \<Rightarrow> Some c | _ \<Rightarrow> None)"

text \<open>Every directory lists each name once.\<close>

fun wf_node :: "node \<Rightarrow> bool"
  and wf_entries :: "(string \<times> node) list \<Rightarrow> bool" where
  "wf_node (File c) = True"
| "wf_node Special = True"
| "wf_node (Dir es) = (distinct (map fst es) \<and> wf_entries es)"
| "wf_entries [] = True"
| "wf_entries (e # es) = (wf_node (snd e) \<and> wf_entries es)"

text \<open>
  Creating or replacing the entry at a path by a regular file; \<open>None\<close> when the parent
  is not an existing directory or the path names a directory.
\<close>

fun set_file :: "node \<Rightarrow> path \<Rightarrow> string \<Rightarrow> node option" where
  "set_file (Dir es) [x] c =
     (case map_of es x of
        Some (Dir sub) \<Rightarrow> None
      | _ \<Rightarrow> Some (Dir (dict_set x (File c) es)))"
| "set_file (Dir es) (x # y # ys) c =
     (case map_of es x of
        None \<Rightarrow> None
      | Some sub \<Rightarrow>
          (case set_file sub (y # ys) c of
             None \<Rightarrow> None
           | Some sub' \<Rightarrow> Some (Dir (dict_set x sub' es))))"
| "set_file nd p c = None"

text \<open>Removing the entry at a path; \<open>None\<close> when it is missing or a directory.\<close>

fun unlink :: "node \<Rightarrow> path \<Rightarrow> node option" where
  "unlink (Dir es) [x] =
     (case map_of es x of
        None \<Rightarrow> None
      | Some (Dir sub) \<Rightarrow> None
      | Some nd \<Rightarrow> Some (Dir (filter (\<lambda>e. fst e \<noteq> x) es)))"
| "unlink (Dir es) (x # y # ys) =
     (case map_of es x of
        None \<Rightarrow> None
      | Some sub \<Rightarrow>
          (case unlink sub (y # ys) of
             None \<Rightarrow> None
           | Some sub' \<Rightarrow> Some (Dir (dict_set x sub' es))))"
| "unlink nd p = None"

text \<open>\<^verbatim>\<open>Path.mkdir(parents=True)\<close> on a path that does not exist.\<close>

fun mkdir_parents :: "node \<Rightarrow> path \<Rightarrow> node option" where
  "mkdir_parents (Dir es) [] = Some (Dir es)"
| "mkdir_parents (Dir es) (x # xs) =
     (case mkdir_parents (case map_of es x of None \<Rightarrow> Dir [] | Some sub \<Rightarrow> sub) xs of
        None \<Rightarrow> None
      | Some sub' \<Rightarrow> Some (Dir (dict_set x sub' es)))"
| "mkdir_parents nd p = None"

section \<open>Exceptions, messages and the environment\<close>

datatype exn =
    NotADirectoryError | FileNotFoundError | IsADirectoryError | SameFileError
  | SpecialFileError | ShutilError | ValueError | IndexError | NotModelled

text \<open>The lines the program prints, in order.\<close>

datatype event =
    NoSuchFolder path
  | Moved path path
  | Copied path path
  | ErrorOrganizing path exn

fun ev_src :: "event \<Rightarrow> path" where
  "ev_src (NoSuchFolder p) = p"
| "ev_src (Moved s d) = s"
| "ev_src (Copied s d) = s"
| "ev_src (ErrorOrganizing s e) = s"

fun ev_dst :: "event \<Rightarrow> path option" where
  "ev_dst (Moved s d) = Some d"
| "ev_dst (Copied s d) = Some d"
| "ev_dst ev = None"


text \<open>
  The library calls the organizer makes are parameters: \<^verbatim>\<open>pattern.format(i)\<close>,
  \<^verbatim>\<open>shutil.copy2(src, dst)\<close> and \<^verbatim>\<open>shutil.move(src, dst)\<close>. A file operation returns the
  exception it raised, if any, and the file tree it left behind, so that permission and
  I/O errors, which the file tree does not determine, are covered.
\<close>

record env =
  str_format :: "string \<Rightarrow> nat \<Rightarrow> exn + string"
  copy2 :: "path \<Rightarrow> path \<Rightarrow> node \<Rightarrow> exn option \<times> node"
  move :: "path \<Rightarrow> path \<Rightarrow> node \<Rightarrow> exn option \<times> node"

section \<open>The filing system\<close>

record sfs =
  folder_path :: path
  naming_patterns :: "(string \<times> string) list"
  default_pattern :: string

text \<open>
  \<^verbatim>\<open>__init__\<close>: the fields of a new filing system, and the whole constructor, which
  creates the target folder when it does not exist.
\<close>

definition new_system :: "path \<Rightarrow> sfs" where
  "new_system folder =
     \<lparr>folder_path = folder, naming_patterns = [], default_pattern = ''file_{:02d}''\<rparr>"

definition init :: "path \<Rightarrow> node \<Rightarrow> exn + (sfs \<times> node)" where
  "init folder fs =
     (let self = new_system folder
      in if exists fs folder then Inr (self, fs)
         else (case mkdir_parents fs folder of
                 None \<Rightarrow> Inl NotADirectoryError
               | Some fs' \<Rightarrow> Inr (self, fs')))"

definition set_naming_pattern :: "sfs \<Rightarrow> string \<Rightarrow> string \<Rightarrow> sfs" where
  "set_naming_pattern self extension pattern =
     (let extension = lstrip_dot extension
      in self\<lparr>naming_patterns := dict_set (lower extension) pattern (naming_patterns self)\<rparr>)"

definition set_default_pattern :: "sfs \<Rightarrow> string \<Rightarrow> sfs" where
  "set_default_pattern self pattern = self\<lparr>default_pattern := pattern\<rparr>"

text \<open>\<^verbatim>\<open>self.naming_patterns.get(ext, self.default_pattern)\<close>.\<close>

definition pattern_for :: "sfs \<Rightarrow> string \<Rightarrow> string" where
  "pattern_for self ext = dict_get (naming_patterns self) ext (default_pattern self)"

subsection \<open>Discovery\<close>

type_synonym groups = "(string \<times> path list) list"

text \<open>
  \<^verbatim>\<open>if ext not in files_by_ext: files_by_ext[ext] = []\<close> followed by
  \<^verbatim>\<open>files_by_ext[ext].extend(files)\<close>; \<^verbatim>\<open>append(item)\<close> is the case of one file.
\<close>

definition extend_group :: "string \<Rightarrow> path list \<Rightarrow> groups \<Rightarrow> groups" where
  "extend_group ext files files_by_ext =
     (let d = (if map_of files_by_ext ext = None then dict_set ext [] files_by_ext
               else files_by_ext)
      in dict_set ext (dict_get d ext [] @ files) d)"

definition add_file :: "string \<Rightarrow> path \<Rightarrow> groups \<Rightarrow> groups" where
  "add_file extension item files_by_ext = extend_group extension [item] files_by_ext"

text \<open>The first loop of \<^verbatim>\<open>_get_files_by_extension\<close>, over the entries of the folder.\<close>

fun files_loop :: "path \<Rightarrow> (string \<times> node) list \<Rightarrow> groups \<Rightarrow> groups" where
  "files_loop folder [] files_by_ext = files_by_ext"
| "files_loop folder ((name, File c) # es) files_by_ext =
     files_loop folder es (add_file (ext_of name) (folder @ [name]) files_by_ext)"
| "files_loop folder ((name, nd) # es) files_by_ext = files_loop folder es files_by_ext"

text \<open>The merge of a subfolder's groups: \<^verbatim>\<open>for ext, files in subfolders_files.items()\<close>.\<close>

fun merge_groups :: "groups \<Rightarrow> groups \<Rightarrow> groups" where
  "merge_groups [] files_by_ext = files_by_ext"
| "merge_groups ((ext, files) # rest) files_by_ext =
     merge_groups rest (extend_group ext files files_by_ext)"

text \<open>
  \<^verbatim>\<open>_get_files_by_extension\<close> on a folder whose entries are \<open>es\<close>, and its second loop,
  which calls it again on every entry that is a directory.
\<close>

fun scan_dir :: "path \<Rightarrow> (string \<times> node) list \<Rightarrow> bool \<Rightarrow> groups"
  and subfolders_loop :: "path \<Rightarrow> (string \<times> node) list \<Rightarrow> groups \<Rightarrow> groups" where
  "scan_dir folder es recursive =
     (let files_by_ext = files_loop folder es []
      in if recursive then subfolders_loop folder es files_by_ext else files_by_ext)"
| "subfolders_loop folder [] files_by_ext = files_by_ext"
| "subfolders_loop folder ((name, Dir sub) # es) files_by_ext =
     subfolders_loop folder es
       (merge_groups (scan_dir (folder @ [name]) sub True) files_by_ext)"
| "subfolders_loop folder ((name, File c) # es) files_by_ext =
     subfolders_loop folder es files_by_ext"
| "subfolders_loop folder ((name, Special) # es) files_by_ext =
     subfolders_loop folder es files_by_ext"

text \<open>
  \<^verbatim>\<open>_get_files_by_extension(source_folder, recursive)\<close>: \<^verbatim>\<open>iterdir()\<close> raises when the
  path is not a directory.
\<close>

definition get_files_by_extension :: "node \<Rightarrow> path \<Rightarrow> bool \<Rightarrow> exn + groups" where
  "get_files_by_extension fs source_folder recursive =
     (case fs_lookup fs source_folder of
        None \<Rightarrow> Inl FileNotFoundError
      | Some (Dir es) \<Rightarrow> Inr (scan_dir source_folder es recursive)
      | Some nd \<Rightarrow> Inl NotADirectoryError)"

subsection \<open>Organizing\<close>

record run =
  counts :: "(string \<times> nat) list"
  tree :: node
  out :: "event list"

text \<open>
  The file name and the destination of the file numbered \<open>i\<close>:
  \<^verbatim>\<open>new_filename = pattern.format(i) + source_path.suffix\<close> and
  \<^verbatim>\<open>new_path = self.folder_path / new_filename\<close>, computed before the \<^verbatim>\<open>try\<close>.
\<close>

definition new_path :: "env \<Rightarrow> sfs \<Rightarrow> string \<Rightarrow> nat \<Rightarrow> path \<Rightarrow> exn + path" where
  "new_path E self pattern i source_path =
     (case str_format E pattern i of
        Inl e \<Rightarrow> Inl e
      | Inr base \<Rightarrow> Inr (joinpath (folder_path self) (base @ suffix_of (name_of source_path))))"

text \<open>
  The inner loop \<^verbatim>\<open>for i, source_path in enumerate(files, 1)\<close>. An exception of the
  formatting leaves the loop; an exception of the copy or move is caught and printed.
\<close>

fun process_group ::
  "env \<Rightarrow> sfs \<Rightarrow> bool \<Rightarrow> string \<Rightarrow> string \<Rightarrow> (nat \<times> path) list \<Rightarrow> run \<Rightarrow> exn option \<times> run" where
  "process_group E self mv ext pattern [] st = (None, st)"
| "process_group E self mv ext pattern ((i, source_path) # rest) st =
     (case new_path E self pattern i source_path of
        Inl e \<Rightarrow> (Some e, st)
      | Inr dst \<Rightarrow>
          (case (if mv then move E else copy2 E) source_path dst (tree st) of
             (None, fs') \<Rightarrow>
               process_group E self mv ext pattern rest
                 \<lparr>counts = dict_set ext (dict_get (counts st) ext 0 + 1) (counts st),
                  tree = fs',
                  out = out st @ [if mv then Moved source_path dst else Copied source_path dst]\<rparr>
           | (Some e, fs') \<Rightarrow>
               process_group E self mv ext pattern rest
                 \<lparr>counts = counts st, tree = fs',
                  out = out st @ [ErrorOrganizing source_path e]\<rparr>))"

text \<open>The outer loop \<^verbatim>\<open>for ext, files in files_by_ext.items()\<close>.\<close>

fun groups_loop :: "env \<Rightarrow> sfs \<Rightarrow> bool \<Rightarrow> groups \<Rightarrow> run \<Rightarrow> exn option \<times> run" where
  "groups_loop E self mv [] st = (None, st)"
| "groups_loop E self mv ((ext, files) # rest) st =
     (let files = sort files;
          pattern = pattern_for self ext
      in case process_group E self mv ext pattern (enumerate 1 files) st of
           (Some e, st') \<Rightarrow> (Some e, st')
         | (None, st') \<Rightarrow> groups_loop E self mv rest st')"

text \<open>
  What a call of \<^verbatim>\<open>organize_files\<close> leaves: the returned dictionary or the exception
  that reached the caller, the file tree, and the printed lines.
\<close>

record outcome =
  result :: "exn + (string \<times> nat) list"
  fs_after :: node
  printed :: "event list"

definition organize_files :: "env \<Rightarrow> sfs \<Rightarrow> path \<Rightarrow> bool \<Rightarrow> bool \<Rightarrow> node \<Rightarrow> outcome" where
  "organize_files E self source_folder recursive mv fs =
     (if \<not> exists fs source_folder
      then \<lparr>result = Inr [], fs_after = fs, printed = [NoSuchFolder source_folder]\<rparr>
      else (case get_files_by_extension fs source_folder recursive of
              Inl e \<Rightarrow> \<lparr>result = Inl e, fs_after = fs, printed = []\<rparr>
            | Inr files_by_ext \<Rightarrow>
                (case groups_loop E self mv files_by_ext \<lparr>counts = [], tree = fs, out = []\<rparr> of
                   (Some e, st) \<Rightarrow> \<lparr>result = Inl e, fs_after = tree st, printed = out st\<rparr>
                 | (None, st) \<Rightarrow>
                     \<lparr>result = Inr (counts st), fs_after = tree st, printed = out st\<rparr>)))"

section \<open>Sequences of calls\<close>

text \<open>The three public methods, and a caller that makes a list of calls in order.\<close>

datatype call =
    SetNamingPattern string string
  | SetDefaultPattern string
  | OrganizeFiles path bool bool

fun do_call :: "env \<Rightarrow> call \<Rightarrow> sfs \<times> node \<Rightarrow> sfs \<times> node" where
  "do_call E (SetNamingPattern extension pattern) (self, fs) =
     (set_naming_pattern self extension pattern, fs)"
| "do_call E (SetDefaultPattern pattern) (self, fs) = (set_default_pattern self pattern, fs)"
| "do_call E (OrganizeFiles source_folder recursive mv) (self, fs) =
     (self, fs_after (organize_files E self source_folder recursive mv fs))"

definition do_calls :: "env \<Rightarrow> call list \<Rightarrow> sfs \<times> node \<Rightarrow> sfs \<times> node" where
  "do_calls E cs st = fold (do_call E) cs st"

text \<open>The keys of the pattern mapping: unique, lower case, no leading dot.\<close>

definition key_normal :: "string \<Rightarrow> bool" where
  "key_normal k = (lower k = k \<and> (k = [] \<or> hd k \<noteq> CHR ''.''))"

definition keys_normalized :: "sfs \<Rightarrow> bool" where
  "keys_normalized self =
     (distinct (map fst (naming_patterns self)) \<and>
      list_all key_normal (map fst (naming_patterns self)))"

section \<open>The library calls on the file tree\<close>

text \<open>
  \<^verbatim>\<open>shutil.copy2(src, dst)\<close> for a source that is a regular file: a destination that is
  a directory stands for the entry of the source's name inside it; copying a file onto
  itself raises \<^verbatim>\<open>SameFileError\<close>; an existing destination file is replaced.
\<close>

definition shutil_copy2 :: "path \<Rightarrow> path \<Rightarrow> node \<Rightarrow> exn option \<times> node" where
  "shutil_copy2 src dst fs =
     (let dst = (if is_dir fs dst then dst @ [name_of src] else dst)
      in case fs_lookup fs src of
           None \<Rightarrow> (Some FileNotFoundError, fs)
         | Some (Dir es) \<Rightarrow> (Some IsADirectoryError, fs)
         | Some Special \<Rightarrow> (Some SpecialFileError, fs)
         | Some (File c) \<Rightarrow>
             if dst = src then (Some SameFileError, fs)
             else if fs_lookup fs dst = Some Special then (Some SpecialFileError, fs)
             else if is_dir fs dst then (Some IsADirectoryError, fs)
             else (case set_file fs dst c of
                     None \<Rightarrow> (Some FileNotFoundError, fs)
                   | Some fs' \<Rightarrow> (None, fs')))"

text \<open>
  \<^verbatim>\<open>os.rename(src, dst)\<close> for a source that is a regular file: renaming a file to
  itself succeeds and changes nothing; an existing destination that is not a directory
  is replaced. Renaming a directory or a special file is not modelled.
\<close>

definition os_rename :: "path \<Rightarrow> path \<Rightarrow> node \<Rightarrow> exn option \<times> node" where
  "os_rename src dst fs =
     (case fs_lookup fs src of
        None \<Rightarrow> (Some FileNotFoundError, fs)
      | Some (Dir es) \<Rightarrow> (Some NotModelled, fs)
      | Some Special \<Rightarrow> (Some NotModelled, fs)
      | Some (File c) \<Rightarrow>
          if dst = src then (None, fs)
          else if is_dir fs dst then (Some IsADirectoryError, fs)
          else (case unlink fs src of
                  None \<Rightarrow> (Some FileNotFoundError, fs)
                | Some fs1 \<Rightarrow>
                    (case set_file fs1 dst c of
                       None \<Rightarrow> (Some FileNotFoundError, fs)
                     | Some fs2 \<Rightarrow> (None, fs2))))"

text \<open>
  \<^verbatim>\<open>shutil.move(src, dst)\<close>: a destination that is a directory stands for the entry of
  the source's name inside it, which must not exist; then the file is renamed.
\<close>

definition shutil_move :: "path \<Rightarrow> path \<Rightarrow> node \<Rightarrow> exn option \<times> node" where
  "shutil_move src dst fs =
     (if is_dir fs dst
      then (let real_dst = dst @ [name_of src]
            in if exists fs real_dst then (Some ShutilError, fs)
               else os_rename src real_dst fs)
      else os_rename src dst fs)"

subsection \<open>Formatting a number\<close>

text \<open>
  \<^verbatim>\<open>pattern.format(i)\<close> for patterns made of literal text, doubled braces and the
  replacement fields \<^verbatim>\<open>{}\<close> and \<^verbatim>\<open>{:spec}\<close>, where \<^verbatim>\<open>spec\<close> is an optional zero flag,
  an optional width and an optional \<^verbatim>\<open>d\<close>. A single brace raises \<^verbatim>\<open>ValueError\<close>, a second
  automatic field raises \<^verbatim>\<open>IndexError\<close> (there is one argument); every other field is
  outside the fragment (\<open>NotModelled\<close>).
\<close>

fun decimal :: "nat \<Rightarrow> string" where
  "decimal n =
     (if n < 10 then [''0123456789'' ! n]
      else decimal (n div 10) @ [''0123456789'' ! (n mod 10)])"

declare decimal.simps [simp del]

definition digit_val :: "char \<Rightarrow> nat option" where
  "digit_val c = map_of (zip ''0123456789'' [0 ..< 10]) c"

fun parse_width :: "nat \<Rightarrow> string \<Rightarrow> nat option" where
  "parse_width acc [] = Some acc"
| "parse_width acc (c # cs) =
     (case digit_val c of
        None \<Rightarrow> None
      | Some d \<Rightarrow> parse_width (10 * acc + d) cs)"

definition format_int :: "string \<Rightarrow> nat \<Rightarrow> exn + string" where
  "format_int spec n =
     (let body = (if spec \<noteq> [] \<and> last spec = CHR ''d'' then butlast spec else spec);
          zero = (body \<noteq> [] \<and> hd body = CHR ''0'');
          digits = (if zero then tl body else body)
      in case parse_width 0 digits of
           None \<Rightarrow> Inl NotModelled
         | Some w \<Rightarrow>
             Inr (replicate (w - length (decimal n)) (if zero then CHR ''0'' else CHR '' '')
                  @ decimal n))"

definition render_field :: "string \<Rightarrow> nat \<Rightarrow> nat \<Rightarrow> exn + string" where
  "render_field field k n =
     (if field \<noteq> [] \<and> hd field \<noteq> CHR '':'' then Inl NotModelled
      else if 0 < k then Inl IndexError
      else format_int (tl field) n)"

definition prepend :: "string \<Rightarrow> exn + string \<Rightarrow> exn + string" where
  "prepend s r = (case r of Inl e \<Rightarrow> Inl e | Inr t \<Rightarrow> Inr (s @ t))"

text \<open>
  The scan of the pattern: \<open>None\<close> while in literal text, \<open>Some field\<close> inside a
  replacement field; \<open>k\<close> counts the fields rendered so far.
\<close>

fun format_scan :: "string option \<Rightarrow> nat \<Rightarrow> string \<Rightarrow> nat \<Rightarrow> exn + string" where
  "format_scan None k [] n = Inr []"
| "format_scan (Some field) k [] n = Inl ValueError"
| "format_scan None k (c # cs) n =
     (if c = CHR ''{'' then
        (case cs of
           [] \<Rightarrow> Inl ValueError
         | d # ds \<Rightarrow>
             if d = CHR ''{'' then prepend ''{'' (format_scan None k ds n)
             else format_scan (Some []) k cs n)
      else if c = CHR ''}'' then
        (case cs of
           [] \<Rightarrow> Inl ValueError
         | d # ds \<Rightarrow>
             if d = CHR ''}'' then prepend ''}'' (format_scan None k ds n)
             else Inl ValueError)
      else prepend [c] (format_scan None k cs n))"
| "format_scan (Some field) k (c # cs) n =
     (if c = CHR ''}'' then
        (case render_field field k n of
           Inl e \<Rightarrow> Inl e
         | Inr s \<Rightarrow> prepend s (format_scan None (Suc k) cs n))
      else if c = CHR ''{'' then Inl NotModelled
      else format_scan (Some (field @ [c])) k cs n)"

definition py_format :: "string \<Rightarrow> nat \<Rightarrow> exn + string" where
  "py_format pattern n = format_scan None 0 pattern n"

definition posix :: env where
  "posix = \<lparr>str_format = py_format, copy2 = shutil_copy2, move = shutil_move\<rparr>"

section \<open>Example trees\<close>

text \<open>A source folder with two text files and a picture, and an empty target.\<close>

definition fs_demo :: node where
  "fs_demo =
     Dir [(''src'', Dir [(''a.txt'', File ''A''), (''b.txt'', File ''B''),
                         (''c.jpg'', File ''C''), (''sub'', Dir [(''d.txt'', File ''D'')])]),
          (''out'', Dir [])]"

text \<open>Two subfolders, one name a prefix of the other, each with a text file.\<close>

definition fs_nested :: node where
  "fs_nested =
     Dir [(''root'', Dir [(''a'', Dir [(''x.txt'', File ''1'')]),
                          (''a-b'', Dir [(''x.txt'', File ''2'')])]),
          (''out'', Dir [])]"

text \<open>A folder organized in place: the target is the source.\<close>

definition fs_inplace :: node where
  "fs_inplace = Dir [(''d'', Dir [(''a.txt'', File ''A''), (''file_01.txt'', File ''B'')])]"

definition fs_single :: node where
  "fs_single = Dir [(''d'', Dir [(''file_01.txt'', File ''B'')])]"

section \<open>Reference notions for discovery\<close>

text \<open>All paths of a grouping, group after group.\<close>

abbreviation paths :: "groups \<Rightarrow> path list" where
  "paths g \<equiv> concat (map snd g)"

text \<open>Every file sits in the group of its own lower-cased extension.\<close>

definition grouped :: "groups \<Rightarrow> bool" where
  "grouped g = (\<forall>(ext, files) \<in> set g. \<forall>f \<in> set files. ext_of (name_of f) = ext)"

text \<open>The regular files that are direct children of a folder, in listing order.\<close>

fun direct_files :: "path \<Rightarrow> (string \<times> node) list \<Rightarrow> path list" where
  "direct_files folder [] = []"
| "direct_files folder ((name, File c) # es) = (folder @ [name]) # direct_files folder es"
| "direct_files folder ((name, nd) # es) = direct_files folder es"

text \<open>The regular files at or below a node, by descent through directories.\<close>

fun files_under :: "path \<Rightarrow> node \<Rightarrow> path list"
  and files_in :: "path \<Rightarrow> (string \<times> node) list \<Rightarrow> path list" where
  "files_under p (File c) = [p]"
| "files_under p Special = []"
| "files_under p (Dir es) = files_in p es"
| "files_in p [] = []"
| "files_in p ((name, nd) # es) = files_under (p @ [name]) nd @ files_in p es"

section \<open>Reference notions for a run\<close>

text \<open>A call that returned without raising.\<close>

definition is_ok :: "exn + 'a \<Rightarrow> bool" where
  "is_ok r = (case r of Inl e \<Rightarrow> False | Inr x \<Rightarrow> True)"

text \<open>
  The files of all groups in processing order, each with its group key and its sequence
  number: within a group the files are sorted (paths compare component by component, as
  \<^verbatim>\<open>pathlib\<close> does) and numbered \<open>1, 2, \<dots>\<close> up to the size of the group.
\<close>

definition numbered :: "groups \<Rightarrow> (string \<times> nat \<times> path) list" where
  "numbered gs =
     concat (map (\<lambda>(ext, files). map (\<lambda>(i, src). (ext, i, src))
                    (zip [1 ..< Suc (length files)] (sort files))) gs)"


text \<open>
  A printed line belongs to a numbered file: it names that file as its source, the
  file's name was formatted, and a destination it shows is the one built from the file's
  number.
\<close>

definition attempt_of :: "env \<Rightarrow> sfs \<Rightarrow> event \<Rightarrow> string \<times> nat \<times> path \<Rightarrow> bool" where
  "attempt_of E self ev t =
     (case t of (ext, i, src) \<Rightarrow>
        ev_src ev = src \<and> is_ok (str_format E (pattern_for self ext) i) \<and>
        (case ev_dst ev of
           None \<Rightarrow> True
         | Some d \<Rightarrow> new_path E self (pattern_for self ext) i src = Inr d))"





section \<open>Lower case and extensions\<close>

lemma lower_char_idem [simp]: "lower_char (lower_char c) = lower_char c"
  by (simp add: lower_char_def)

lemma lower_char_dot [simp]: "lower_char c = CHR ''.'' \<longleftrightarrow> c = CHR ''.''"
  by (simp add: lower_char_def)

lemma lower_idem [simp]: "lower (lower s) = lower s"
  by (simp add: lower_def)

lemma length_lower [simp]: "length (lower s) = length s"
  by (simp add: lower_def)






lemma key_normal_lower_lstrip: "key_normal (lower (lstrip_dot e))"
proof -
  have "lstrip_dot e \<noteq> [] \<Longrightarrow> hd (lstrip_dot e) \<noteq> CHR ''.''"
    unfolding lstrip_dot_def using hd_dropWhile [of "\<lambda>c. c = CHR ''.''" e] by simp
  then have "lower (lstrip_dot e) = [] \<or> hd (lower (lstrip_dot e)) \<noteq> CHR ''.''"
    by (cases "lstrip_dot e") (auto simp: lower_def)
  then show ?thesis by (simp add: key_normal_def)
qed

section \<open>Dictionary facts\<close>

lemma keys_dict_set:
  "map fst (dict_set k v d) = (if k \<in> set (map fst d) then map fst d else map fst d @ [k])"
  by (induction d) (auto simp: rev_image_eqI)



section \<open>The pattern mapping keeps its keys normalized\<close>

lemma set_naming_pattern_keeps:
  "keys_normalized self \<Longrightarrow> keys_normalized (set_naming_pattern self e p)"
  using key_normal_lower_lstrip [of e]
  by (auto simp: keys_normalized_def set_naming_pattern_def keys_dict_set Let_def)

lemma set_default_pattern_keeps:
  "keys_normalized self \<Longrightarrow> keys_normalized (set_default_pattern self p)"
  by (simp add: keys_normalized_def set_default_pattern_def)

lemma do_call_keeps: "keys_normalized (fst st) \<Longrightarrow> keys_normalized (fst (do_call E c st))"
  by (cases c; cases st) (simp_all add: set_naming_pattern_keeps set_default_pattern_keeps)

lemma do_calls_keeps: "keys_normalized (fst st) \<Longrightarrow> keys_normalized (fst (do_calls E cs st))"
  unfolding do_calls_def
  by (induction cs arbitrary: st) (auto simp: do_call_keeps)

text \<open>
  Claim C9. After the constructor and any sequence of calls of \<^verbatim>\<open>set_naming_pattern\<close>,
  \<^verbatim>\<open>set_default_pattern\<close> and \<^verbatim>\<open>organize_files\<close>, whatever the library calls do, the keys
  of the pattern mapping are pairwise different, each equal to its own lower case, and
  none starts with a dot.
\<close>

theorem pattern_keys_stay_normalized:
  "init folder fs = Inr st \<Longrightarrow> keys_normalized (fst (do_calls E cs st))"
proof -
  assume "init folder fs = Inr st"
  then have "fst st = new_system folder"
    by (auto simp: init_def Let_def split: if_splits option.splits)
  then have "keys_normalized (fst st)"
    by (simp add: keys_normalized_def new_system_def)
  then show ?thesis by (rule do_calls_keeps)
qed

theorem pattern_keys_stay_normalized_witness:
  "init [''out''] fs_demo = Inr (new_system [''out''], fs_demo) \<and>
   keys_normalized (fst (do_calls posix
     [SetNamingPattern ''.JPG'' ''img_{:02d}'', SetDefaultPattern ''f_{}'',
      OrganizeFiles [''src''] False False, SetNamingPattern ''jpg'' ''pic_{}'',
      SetNamingPattern ''..Txt'' ''t_{}'']
     (new_system [''out''], fs_demo)))"
proof -
  have h: "init [''out''] fs_demo = Inr (new_system [''out''], fs_demo)"
    by (simp add: init_def exists_def fs_demo_def)
  show ?thesis using h pattern_keys_stay_normalized [OF h] by simp
qed

section \<open>A source folder that is missing or not a directory\<close>

text \<open>
  Claim C3. When the source folder does not exist, \<^verbatim>\<open>organize_files\<close> prints the
  condition, returns the empty dictionary, raises nothing and leaves the file tree, the
  target folder included, as it was.
\<close>

theorem missing_source_returns_empty:
  "\<not> exists fs source_folder \<Longrightarrow>
   organize_files E self source_folder recursive mv fs =
     \<lparr>result = Inr [], fs_after = fs, printed = [NoSuchFolder source_folder]\<rparr>"
  by (simp add: organize_files_def)

theorem missing_source_returns_empty_witness:
  "\<not> exists fs_demo [''nope''] \<and>
   organize_files posix (new_system [''out'']) [''nope''] True True fs_demo =
     \<lparr>result = Inr [], fs_after = fs_demo, printed = [NoSuchFolder [''nope'']]\<rparr>"
proof -
  have h: "\<not> exists fs_demo [''nope'']"
    by (simp add: exists_def fs_demo_def)
  show ?thesis using h missing_source_returns_empty [OF h] by simp
qed

text \<open>
  Claim C10. When the source folder exists but is a regular file, the directory listing
  raises and the exception reaches the caller of \<^verbatim>\<open>organize_files\<close>: no dictionary is
  returned, nothing is printed and the file tree is unchanged.
\<close>

theorem file_as_source_raises:
  "fs_lookup fs source_folder = Some (File c) \<Longrightarrow>
   result (organize_files E self source_folder recursive mv fs) = Inl NotADirectoryError \<and>
   fs_after (organize_files E self source_folder recursive mv fs) = fs \<and>
   printed (organize_files E self source_folder recursive mv fs) = []"
  by (simp add: organize_files_def exists_def get_files_by_extension_def)

theorem file_as_source_raises_witness:
  "fs_lookup fs_demo [''src'', ''a.txt''] = Some (File ''A'') \<and>
   result (organize_files posix (new_system [''out'']) [''src'', ''a.txt''] False False fs_demo)
     = Inl NotADirectoryError"
proof -
  have h: "fs_lookup fs_demo [''src'', ''a.txt''] = Some (File ''A'')"
    by (simp add: fs_demo_def)
  show ?thesis using h file_as_source_raises [OF h] by simp
qed

section \<open>Discovery\<close>

lemma paths_dict_set_get:
  "mset (paths (dict_set k (dict_get d k [] @ xs) d)) = mset (paths d) + mset xs"
  by (induction d) (auto simp: dict_get_def)

lemma paths_dict_set_new:
  "map_of d k = None \<Longrightarrow> paths (dict_set k [] d) = paths d"
  by (induction d) (auto split: if_splits)

lemma mset_paths_extend_group:
  "mset (paths (extend_group ext files g)) = mset (paths g) + mset files"
  by (simp add: extend_group_def Let_def paths_dict_set_get paths_dict_set_new)

lemma keys_extend_group:
  "distinct (map fst g) \<Longrightarrow> distinct (map fst (extend_group ext files g))"
  by (simp add: extend_group_def Let_def keys_dict_set)

lemma set_dict_set: "set (dict_set k v d) \<subseteq> insert (k, v) (set d)"
  by (induction d) (auto split: if_splits)

lemma dict_get_in: "dict_get d k [] = [] \<or> (k, dict_get d k []) \<in> set d"
  by (auto simp: dict_get_def split: option.splits dest: map_of_SomeD)

lemma grouped_dict_set:
  "grouped d \<Longrightarrow> \<forall>f \<in> set v. ext_of (name_of f) = k \<Longrightarrow> grouped (dict_set k v d)"
  using set_dict_set [of k v d] unfolding grouped_def by fastforce

lemma grouped_get: "grouped d \<Longrightarrow> f \<in> set (dict_get d k []) \<Longrightarrow> ext_of (name_of f) = k"
  using dict_get_in [of d k] unfolding grouped_def by fastforce

lemma grouped_extend_group:
  assumes "grouped g" "\<forall>f \<in> set files. ext_of (name_of f) = ext"
  shows "grouped (extend_group ext files g)"
proof -
  let ?d = "if map_of g ext = None then dict_set ext [] g else g"
  have d: "grouped ?d" using assms(1) by (simp add: grouped_dict_set)
  have "\<forall>f \<in> set (dict_get ?d ext [] @ files). ext_of (name_of f) = ext"
    using grouped_get [OF d] assms(2) by auto
  with d show ?thesis
    unfolding extend_group_def Let_def by (rule grouped_dict_set)
qed

lemma mset_paths_files_loop:
  "mset (paths (files_loop folder es g)) = mset (paths g) + mset (direct_files folder es)"
  by (induction folder es g rule: files_loop.induct)
     (simp_all add: add_file_def mset_paths_extend_group)

lemma keys_files_loop: "distinct (map fst g) \<Longrightarrow> distinct (map fst (files_loop folder es g))"
  by (induction folder es g rule: files_loop.induct)
     (simp_all add: add_file_def keys_extend_group)

lemma grouped_files_loop: "grouped g \<Longrightarrow> grouped (files_loop folder es g)"
  by (induction folder es g rule: files_loop.induct)
     (simp_all add: add_file_def grouped_extend_group name_of_def)

lemma mset_paths_merge_groups:
  "mset (paths (merge_groups sub g)) = mset (paths g) + mset (paths sub)"
  by (induction sub g rule: merge_groups.induct) (simp_all add: mset_paths_extend_group)

lemma keys_merge_groups: "distinct (map fst g) \<Longrightarrow> distinct (map fst (merge_groups sub g))"
  by (induction sub g rule: merge_groups.induct) (simp_all add: keys_extend_group)

lemma grouped_Cons:
  "grouped ((ext, files) # g) \<longleftrightarrow> (\<forall>f \<in> set files. ext_of (name_of f) = ext) \<and> grouped g"
  by (auto simp: grouped_def)

lemma grouped_merge_groups: "grouped sub \<Longrightarrow> grouped g \<Longrightarrow> grouped (merge_groups sub g)"
  by (induction sub g rule: merge_groups.induct)
     (simp_all add: grouped_extend_group grouped_Cons)

lemma grouped_Nil [simp]: "grouped []"
  by (simp add: grouped_def)

lemma scan_facts:
  "distinct (map fst (scan_dir folder es r)) \<and> grouped (scan_dir folder es r)"
  "distinct (map fst g) \<and> grouped g \<Longrightarrow>
     distinct (map fst (subfolders_loop folder es g)) \<and> grouped (subfolders_loop folder es g)"
  by (induction folder es r and folder es g rule: scan_dir_subfolders_loop.induct)
     (simp_all add: Let_def keys_files_loop grouped_files_loop keys_merge_groups
        grouped_merge_groups)

lemma scan_mset:
  "mset (paths (scan_dir folder es r)) =
     (if r then mset (files_in folder es) else mset (direct_files folder es))"
  "mset (paths (subfolders_loop folder es g)) + mset (direct_files folder es) =
     mset (paths g) + mset (files_in folder es)"
  by (induction folder es r and folder es g rule: scan_dir_subfolders_loop.induct)
     (simp_all add: Let_def mset_paths_files_loop mset_paths_merge_groups)

lemma files_under_prefix:
  "x \<in> set (files_under p nd) \<Longrightarrow> \<exists>q. x = p @ q"
  "x \<in> set (files_in p es) \<Longrightarrow> \<exists>n q. x = p @ n # q \<and> n \<in> fst ` set es"
proof (induction p nd and p es arbitrary: x and x rule: files_under_files_in.induct)
  case (1 p c)
  then show ?case by simp
next
  case (2 p)
  then show ?case by simp
next
  case (3 p es)
  then show ?case by fastforce
next
  case (4 p)
  then show ?case by simp
next
  case (5 p name nd es)
  from "5.prems" consider "x \<in> set (files_under (p @ [name]) nd)" | "x \<in> set (files_in p es)"
    by auto
  then show ?case
  proof cases
    case 1
    from "5.IH"(1) [OF this] obtain q where "x = (p @ [name]) @ q" by auto
    then show ?thesis by auto
  next
    case 2
    from "5.IH"(2) [OF this] show ?thesis by auto
  qed
qed

lemma wf_entries_map_of: "wf_entries es \<Longrightarrow> map_of es x = Some c \<Longrightarrow> wf_node c"
  by (induction es) (auto split: if_splits)

lemma wf_lookup: "wf_node nd \<Longrightarrow> fs_lookup nd p = Some nd' \<Longrightarrow> wf_node nd'"
  by (induction nd p rule: fs_lookup.induct)
     (auto split: option.splits dest: wf_entries_map_of)

lemma fs_lookup_append:
  "fs_lookup nd (p @ q) = (case fs_lookup nd p of None \<Rightarrow> None | Some nd' \<Rightarrow> fs_lookup nd' q)"
  by (induction nd p rule: fs_lookup.induct) (auto split: option.splits)

lemma mset_eq_distinct: "mset xs = mset ys \<Longrightarrow> distinct ys \<Longrightarrow> distinct xs"
  using mset_eq_imp_distinct_iff by blast

lemma files_under_lookup:
  "wf_node nd \<Longrightarrow>
     (\<forall>q. p @ q \<in> set (files_under p nd) \<longleftrightarrow> (\<exists>c. fs_lookup nd q = Some (File c))) \<and>
     distinct (files_under p nd)"
  "distinct (map fst es) \<and> wf_entries es \<Longrightarrow>
     (\<forall>n q. p @ n # q \<in> set (files_in p es) \<longleftrightarrow>
        (\<exists>nd c. map_of es n = Some nd \<and> fs_lookup nd q = Some (File c))) \<and>
     distinct (files_in p es)"
proof (induction p nd and p es rule: files_under_files_in.induct)
  case (1 p c)
  have "(\<exists>c'. fs_lookup (File c) q = Some (File c')) \<longleftrightarrow> q = []" for q
    by (cases q) auto
  then show ?case by simp
next
  case (2 p)
  have "fs_lookup Special q \<noteq> Some (File c')" for q c'
    by (cases q) auto
  then show ?case by simp
next
  case (3 p es)
  then have IH: "\<forall>n q. p @ n # q \<in> set (files_in p es) \<longleftrightarrow>
        (\<exists>nd c. map_of es n = Some nd \<and> fs_lookup nd q = Some (File c))"
    and d: "distinct (files_in p es)" by auto
  have "p @ q \<in> set (files_in p es) \<longleftrightarrow> (\<exists>c. fs_lookup (Dir es) q = Some (File c))" for q
  proof (cases q)
    case Nil
    then show ?thesis using files_under_prefix(2) [of "p" p es] by auto
  next
    case (Cons n q')
    then show ?thesis using IH by (auto split: option.splits)
  qed
  with d show ?case by simp
next
  case (4 p)
  show ?case by simp
next
  case (5 p name nd es)
  then have wf: "wf_node nd" and dist: "distinct (map fst es)" "wf_entries es"
    and fresh: "name \<notin> fst ` set es" by auto
  from "5.IH"(1) [OF wf] have
    IH1: "\<And>q. (p @ [name]) @ q \<in> set (files_under (p @ [name]) nd) \<longleftrightarrow>
            (\<exists>c. fs_lookup nd q = Some (File c))"
    and d1: "distinct (files_under (p @ [name]) nd)" by auto
  from "5.IH"(2) dist have
    IH2: "\<And>n q. p @ n # q \<in> set (files_in p es) \<longleftrightarrow>
            (\<exists>nd c. map_of es n = Some nd \<and> fs_lookup nd q = Some (File c))"
    and d2: "distinct (files_in p es)" by auto
  have none: "map_of es name = None"
    using fresh by (simp add: map_of_eq_None_iff)
  have disj: "set (files_under (p @ [name]) nd) \<inter> set (files_in p es) = {}"
  proof (rule ccontr)
    assume "set (files_under (p @ [name]) nd) \<inter> set (files_in p es) \<noteq> {}"
    then obtain x where x1: "x \<in> set (files_under (p @ [name]) nd)"
      and x2: "x \<in> set (files_in p es)" by auto
    from files_under_prefix(1) [OF x1] obtain q where "x = (p @ [name]) @ q" by auto
    moreover from files_under_prefix(2) [OF x2] obtain n q' where
      "x = p @ n # q'" "n \<in> fst ` set es" by auto
    ultimately show False using fresh by auto
  qed
  have mem: "p @ n # q \<in> set (files_in p ((name, nd) # es)) \<longleftrightarrow>
        (\<exists>nd' c. map_of ((name, nd) # es) n = Some nd' \<and> fs_lookup nd' q = Some (File c))"
    for n q
  proof (cases "n = name")
    case True
    have "p @ name # q \<notin> set (files_in p es)"
      using IH2 [of name q] none by simp
    then show ?thesis using True IH1 [of q] by simp
  next
    case False
    have "p @ n # q \<notin> set (files_under (p @ [name]) nd)"
    proof
      assume "p @ n # q \<in> set (files_under (p @ [name]) nd)"
      from files_under_prefix(1) [OF this] obtain q' where "p @ n # q = (p @ [name]) @ q'"
        by auto
      then show False using False by simp
    qed
    then show ?thesis using False IH2 [of n q] by simp
  qed
  show ?case using mem d1 d2 disj by simp
qed

text \<open>
  Claim C4. In a file tree whose directories list each name once, recursive discovery on
  a source directory returns groups with pairwise different keys, whose files are
  exactly the regular files reachable from the source folder by descent through
  directories, each of them once over all groups, and each in the group of its own
  extension.
\<close>

theorem recursive_discovery_exactly_once:
  assumes wf: "wf_node fs" and src: "fs_lookup fs source_folder = Some (Dir es)"
  shows "\<exists>gs. get_files_by_extension fs source_folder True = Inr gs \<and>
           distinct (map fst gs) \<and> distinct (concat (map snd gs)) \<and> grouped gs \<and>
           (\<forall>p. p \<in> set (concat (map snd gs)) \<longleftrightarrow>
                (\<exists>q c. p = source_folder @ q \<and> fs_lookup fs p = Some (File c)))"
proof -
  let ?gs = "scan_dir source_folder es True"
  have wfd: "wf_node (Dir es)" using wf_lookup [OF wf src] .
  have ms: "mset (paths ?gs) = mset (files_in source_folder es)"
    using scan_mset(1) [of source_folder es True] by simp
  from files_under_lookup(1) [OF wfd, of source_folder] have
    ch: "\<And>q. source_folder @ q \<in> set (files_in source_folder es) \<longleftrightarrow>
            (\<exists>c. fs_lookup (Dir es) q = Some (File c))"
    and d: "distinct (files_in source_folder es)" by auto
  have look: "fs_lookup fs (source_folder @ q) = fs_lookup (Dir es) q" for q
    by (simp add: fs_lookup_append src)
  have set_eq: "set (paths ?gs) = set (files_in source_folder es)"
    using ms by (rule mset_eq_setD)
  have dist: "distinct (paths ?gs)"
    using ms d by (rule mset_eq_distinct)
  have mem: "p \<in> set (paths ?gs) \<longleftrightarrow>
        (\<exists>q c. p = source_folder @ q \<and> fs_lookup fs p = Some (File c))" for p
  proof
    assume "p \<in> set (paths ?gs)"
    then have p: "p \<in> set (files_in source_folder es)" by (simp only: set_eq)
    from files_under_prefix(2) [OF p] obtain n q where pq: "p = source_folder @ n # q" by auto
    with p ch [of "n # q"] look [of "n # q"] show
      "\<exists>q c. p = source_folder @ q \<and> fs_lookup fs p = Some (File c)" by auto
  next
    assume "\<exists>q c. p = source_folder @ q \<and> fs_lookup fs p = Some (File c)"
    then obtain q c where "p = source_folder @ q" "fs_lookup fs p = Some (File c)" by auto
    with ch [of q] look [of q] have "p \<in> set (files_in source_folder es)" by auto
    then show "p \<in> set (paths ?gs)" by (simp only: set_eq)
  qed
  have "get_files_by_extension fs source_folder True = Inr ?gs"
    by (simp add: get_files_by_extension_def src)
  with scan_facts(1) [of source_folder es True] dist mem show ?thesis by blast
qed

theorem recursive_discovery_exactly_once_witness:
  "wf_node fs_demo \<and>
   (\<exists>gs. get_files_by_extension fs_demo [''src''] True = Inr gs \<and>
      distinct (concat (map snd gs)) \<and>
      [''src'', ''sub'', ''d.txt''] \<in> set (concat (map snd gs)) \<and>
      [''out''] \<notin> set (concat (map snd gs)))"
proof -
  have wf: "wf_node fs_demo" by (simp add: fs_demo_def)
  have src: "fs_lookup fs_demo [''src''] =
      Some (Dir [(''a.txt'', File ''A''), (''b.txt'', File ''B''), (''c.jpg'', File ''C''),
                 (''sub'', Dir [(''d.txt'', File ''D'')])])"
    by (simp add: fs_demo_def)
  have f: "fs_lookup fs_demo [''src'', ''sub'', ''d.txt''] = Some (File ''D'')"
    by (simp add: fs_demo_def)
  from recursive_discovery_exactly_once [OF wf src] obtain gs where
    gs: "get_files_by_extension fs_demo [''src''] True = Inr gs"
      "distinct (concat (map snd gs))"
      "\<And>p. p \<in> set (concat (map snd gs)) \<longleftrightarrow>
         (\<exists>q c. p = [''src''] @ q \<and> fs_lookup fs_demo p = Some (File c))"
    by blast
  have "[''src'', ''sub'', ''d.txt''] \<in> set (concat (map snd gs))"
    using gs(3) [of "[''src'', ''sub'', ''d.txt'']"] f by simp
  moreover have "[''out''] \<notin> set (concat (map snd gs))"
    using gs(3) [of "[''out'']"] by simp
  ultimately show ?thesis using wf gs(1,2) by blast
qed

section \<open>Extensions and patterns without regard to case\<close>





section \<open>The loops of organize_files\<close>











lemma map_snd_zip_upt: "map snd (zip [1 ..< Suc (length xs)] xs) = xs"
  by (rule map_snd_zip) (simp del: upt_Suc)




lemma attempts_sources:
  "list_all2 (attempt_of E self) evs ts \<Longrightarrow> map ev_src evs = map (\<lambda>(ext, i, src). src) ts"
  by (induction evs ts rule: list_all2_induct) (auto simp: attempt_of_def)

lemma numbered_Cons:
  "numbered ((ext, files) # gs) =
     map (\<lambda>(i, src). (ext, i, src)) (zip [1 ..< Suc (length files)] (sort files)) @ numbered gs"
  by (simp add: numbered_def del: upt_Suc)

lemma numbered_sources:
  "map (\<lambda>(ext, i, src). src) (numbered gs) = concat (map (\<lambda>(ext, files). sort files) gs)"
proof (induction gs)
  case Nil
  show ?case by (simp add: numbered_def)
next
  case (Cons g gs)
  obtain ext files where g: "g = (ext, files)" by (cases g)
  have "map (\<lambda>(ext, i, src). src)
          (map (\<lambda>(i, src). (ext, i, src)) (zip [1 ..< Suc (length files)] (sort files)))
        = map snd (zip [1 ..< Suc (length (sort files))] (sort files))"
    by (simp add: case_prod_unfold comp_def del: upt_Suc)
  also have "\<dots> = sort files" by (rule map_snd_zip_upt)
  finally show ?case using Cons.IH unfolding g numbered_Cons by simp
qed

lemma mset_numbered_sources:
  "mset (map (\<lambda>(ext, i, src). src) (numbered gs)) = mset (paths gs)"
  unfolding numbered_sources by (induction gs) auto







end
